theory Spec2Isabelle
  imports Main
begin

unbundle bit_operations_syntax

section \<open>A bit-banged DS1302 real-time clock driver (clock\_ds1302.py)\<close>

text \<open>
  The driver is MicroPython. Its integers are unbounded and are modelled as \<open>int\<close>,
  with \<open>>>\<close>, \<open><<\<close>, \<open>&\<close> and \<open>|\<close> as \<open>drop_bit\<close>, \<open>push_bit\<close>, \<open>AND\<close> and
  \<open>OR\<close>; \<open>//\<close> and \<open>%\<close> round towards minus infinity, as \<open>div\<close> and \<open>mod\<close> do.
  An exception is a value \<open>Inl e\<close> of the result. The three pins are the only state:
  every operation on a pin is recorded, oldest first.
\<close>

subsection \<open>Python's \<open>str\<close> and \<open>int\<close> on decimal strings\<close>

datatype error = ValueError

definition digit_char :: "nat \<Rightarrow> char" where
  "digit_char d = ''0123456789'' ! d"

text \<open>The decimal digits of a natural number, most significant first.\<close>

fun decimal :: "nat \<Rightarrow> string" where
  "decimal n = (if n < 10 then [digit_char n] else decimal (n div 10) @ [digit_char (n mod 10)])"

declare decimal.simps [simp del]

text \<open>\<open>str(i)\<close> of a Python integer: a minus sign for a negative one, then the digits.\<close>

definition str :: "int \<Rightarrow> string" where
  "str i = (if i < 0 then CHR ''-'' # decimal (nat (- i)) else decimal (nat i))"

definition is_digit :: "char \<Rightarrow> bool" where
  "is_digit c = (c \<in> set ''0123456789'')"

definition digit_value :: "char \<Rightarrow> int" where
  "digit_value c = int (of_char c) - 48"

text \<open>
  \<open>int(s)\<close> on the strings the driver passes to it. The only call is on a slice of
  \<open>str(year)\<close> that starts at index 2, which holds decimal digits only (lemma
  \<open>year_slice_digits\<close>); on such a string Python returns the number read in base 10, and
  raises ValueError when the string is empty.
\<close>

definition int_of_str :: "string \<Rightarrow> error + int" where
  "int_of_str s =
     (if s \<noteq> [] \<and> list_all is_digit s
      then Inr (foldl (\<lambda>acc c. 10 * acc + digit_value c) 0 s)
      else Inl ValueError)"

subsection \<open>The BCD codec\<close>

definition bcd_to_string :: "int \<Rightarrow> string" where
  "bcd_to_string bcd_value =
     (let tens_digit = drop_bit 4 bcd_value AND 0x0F;
          units_digit = bcd_value AND 0x0F;
          tens_digit_decimal = tens_digit * 10;
          units_digit_decimal = units_digit
      in str (tens_digit_decimal + units_digit_decimal))"

definition int_to_bcd :: "int \<Rightarrow> error + int" where
  "int_to_bcd integer_value =
     (if integer_value < 0 \<or> integer_value > 99 then Inl ValueError
      else let tens_digit = integer_value div 10;
               units_digit = integer_value mod 10
           in Inr (push_bit 4 tens_digit OR units_digit))"

subsection \<open>Pins\<close>

text \<open>
  The driver holds three \<open>machine.Pin\<close> objects. \<open>pin.init(mode)\<close>, \<open>pin.value(x)\<close> and
  \<open>pin.value()\<close> are the only operations it uses; each one is appended to \<open>ops\<close>. The
  level found on the data line at the \<open>k\<close>-th call of \<open>dio.value()\<close> is \<open>line k\<close>: it is
  driven by the chip, so the model leaves it arbitrary.
\<close>

datatype pin = CLK | DIO | CS_RST

datatype pin_mode = IN | OUT

datatype pin_op = Init pin pin_mode | Put pin int | Get pin int

record bus =
  ops :: "pin_op list"
  line :: "nat \<Rightarrow> bool"
  taken :: nat

type_synonym 'a io = "bus \<Rightarrow> (error + 'a) \<times> bus"

definition done_io :: "'a \<Rightarrow> 'a io" where
  "done_io x = (\<lambda>s. (Inr x, s))"

definition raise_io :: "error \<Rightarrow> 'a io" where
  "raise_io e = (\<lambda>s. (Inl e, s))"

text \<open>Sequencing: an exception of the first part skips the rest and keeps the pins as they are.\<close>

definition then_io :: "'a io \<Rightarrow> ('a \<Rightarrow> 'b io) \<Rightarrow> 'b io" where
  "then_io m f = (\<lambda>s. case m s of (Inl e, s') \<Rightarrow> (Inl e, s') | (Inr x, s') \<Rightarrow> f x s')"

definition lift_io :: "error + 'a \<Rightarrow> 'a io" where
  "lift_io r = (case r of Inl e \<Rightarrow> raise_io e | Inr x \<Rightarrow> done_io x)"

definition pin_init :: "pin \<Rightarrow> pin_mode \<Rightarrow> unit io" where
  "pin_init p m = (\<lambda>s. (Inr (), s\<lparr>ops := ops s @ [Init p m]\<rparr>))"

definition pin_put :: "pin \<Rightarrow> int \<Rightarrow> unit io" where
  "pin_put p v = (\<lambda>s. (Inr (), s\<lparr>ops := ops s @ [Put p v]\<rparr>))"

definition pin_get :: "pin \<Rightarrow> int io" where
  "pin_get p = (\<lambda>s. let v = (if line s (taken s) then 1 else 0)
                     in (Inr v, s\<lparr>ops := ops s @ [Get p v], taken := Suc (taken s)\<rparr>))"

subsection \<open>Register addresses\<close>

definition RTC_SEC_WRITE :: int where "RTC_SEC_WRITE = 0x80"
definition RTC_SEC_READ :: int where "RTC_SEC_READ = 0x81"
definition RTC_MIN_WRITE :: int where "RTC_MIN_WRITE = 0x82"
definition RTC_MIN_READ :: int where "RTC_MIN_READ = 0x83"
definition RTC_HOUR_WRITE :: int where "RTC_HOUR_WRITE = 0x84"
definition RTC_HOUR_READ :: int where "RTC_HOUR_READ = 0x85"
definition RTC_DAY_OF_THE_MONTH_WRITE :: int where "RTC_DAY_OF_THE_MONTH_WRITE = 0x86"
definition RTC_DAY_OF_THE_MONTH_READ :: int where "RTC_DAY_OF_THE_MONTH_READ = 0x87"
definition RTC_MONTH_WRITE :: int where "RTC_MONTH_WRITE = 0x88"
definition RTC_MONTH_READ :: int where "RTC_MONTH_READ = 0x89"
definition RTC_DAY_OF_THE_WEEK_WRITE :: int where "RTC_DAY_OF_THE_WEEK_WRITE = 0x8A"
definition RTC_DAY_OF_THE_WEEK_READ :: int where "RTC_DAY_OF_THE_WEEK_READ = 0x8B"
definition RTC_YEAR_WRITE :: int where "RTC_YEAR_WRITE = 0x8C"
definition RTC_YEAR_READ :: int where "RTC_YEAR_READ = 0x8D"
definition RTC_REG_WRITE_PROTECTION :: int where "RTC_REG_WRITE_PROTECTION = 0x8E"
definition RTC_CLOCK_BURST_MODE :: int where "RTC_CLOCK_BURST_MODE = 0xBE"

subsection \<open>Class \<open>DS1302\<close>: bit transport\<close>

definition year_prefix :: string where
  "year_prefix = ''20''"

definition init_DS1302 :: "unit io" where
  "init_DS1302 = then_io (pin_init CLK OUT) (\<lambda>_. pin_init CS_RST OUT)"

definition sample_data_on_the_raising_edge_of_the_clock :: "unit io" where
  "sample_data_on_the_raising_edge_of_the_clock =
     then_io (pin_put CLK 1) (\<lambda>_. pin_put CLK 0)"

text \<open>The body of \<open>for i in range(8)\<close> in \<open>_write_byte\<close>, over the indices still to do.\<close>

fun write_byte_loop :: "int \<Rightarrow> nat list \<Rightarrow> unit io" where
  "write_byte_loop byte [] = done_io ()"
| "write_byte_loop byte (i # rest) =
     (let byte_to_write = drop_bit i byte AND 1
      in then_io (pin_put DIO byte_to_write) (\<lambda>_.
         then_io sample_data_on_the_raising_edge_of_the_clock (\<lambda>_.
         write_byte_loop byte rest)))"

definition write_byte :: "int \<Rightarrow> unit io" where
  "write_byte byte = then_io (pin_init DIO OUT) (\<lambda>_. write_byte_loop byte [0..<8])"

text \<open>The body of \<open>for i in range(8)\<close> in \<open>_read_byte\<close>, with the accumulator \<open>data\<close>.\<close>

fun read_byte_loop :: "nat list \<Rightarrow> int \<Rightarrow> int io" where
  "read_byte_loop [] data = done_io data"
| "read_byte_loop (i # rest) data =
     then_io (pin_get DIO) (\<lambda>bit_value.
     then_io sample_data_on_the_raising_edge_of_the_clock (\<lambda>_.
     read_byte_loop rest (data OR push_bit i bit_value)))"

definition read_byte :: "int io" where
  "read_byte = then_io (pin_init DIO IN) (\<lambda>_. read_byte_loop [0..<8] 0)"

subsection \<open>Register transactions\<close>

definition write_data_to_register :: "int \<Rightarrow> int \<Rightarrow> unit io" where
  "write_data_to_register register data =
     then_io (pin_put CS_RST 1) (\<lambda>_.
     then_io (write_byte register) (\<lambda>_.
     then_io (write_byte data) (\<lambda>_.
     pin_put CS_RST 0)))"

definition unlock_then_write :: "int \<Rightarrow> int \<Rightarrow> unit io" where
  "unlock_then_write register data =
     then_io (lift_io (int_to_bcd data)) (\<lambda>dataInBcd.
     then_io (write_data_to_register RTC_REG_WRITE_PROTECTION 0) (\<lambda>_.
     then_io (write_data_to_register register dataInBcd) (\<lambda>_.
     write_data_to_register RTC_REG_WRITE_PROTECTION 0x80)))"

definition read_from_regiter :: "int \<Rightarrow> string io" where
  "read_from_regiter register =
     then_io (pin_put CS_RST 1) (\<lambda>_.
     then_io (write_byte register) (\<lambda>_.
     then_io read_byte (\<lambda>data_readed.
     then_io (pin_put CS_RST 0) (\<lambda>_.
     done_io (bcd_to_string data_readed)))))"

text \<open>\<open>yearAsString[2:4]\<close> is \<open>take 2 (drop 2 yearAsString)\<close>.\<close>

definition prepare_year_for_save :: "int \<Rightarrow> error + int" where
  "prepare_year_for_save year =
     (let yearAsString = str year in int_of_str (take 2 (drop 2 yearAsString)))"

subsection \<open>Public API\<close>

definition writeSeconds :: "int \<Rightarrow> unit io" where
  "writeSeconds seconds = unlock_then_write RTC_SEC_WRITE seconds"

definition readSeconds :: "string io" where
  "readSeconds = read_from_regiter RTC_SEC_READ"

definition writeMinutes :: "int \<Rightarrow> unit io" where
  "writeMinutes minutes = unlock_then_write RTC_MIN_WRITE minutes"

definition readMinutes :: "string io" where
  "readMinutes = read_from_regiter RTC_MIN_READ"

definition writeHours :: "int \<Rightarrow> unit io" where
  "writeHours hours = unlock_then_write RTC_HOUR_WRITE hours"

definition readHours :: "string io" where
  "readHours = read_from_regiter RTC_HOUR_READ"

definition writeDayOfTheMonth :: "int \<Rightarrow> unit io" where
  "writeDayOfTheMonth dayOfTheMonth = unlock_then_write RTC_DAY_OF_THE_MONTH_WRITE dayOfTheMonth"

definition readDayOfTheMonth :: "string io" where
  "readDayOfTheMonth = read_from_regiter RTC_DAY_OF_THE_MONTH_READ"

definition writeMonth :: "int \<Rightarrow> unit io" where
  "writeMonth month = unlock_then_write RTC_MONTH_WRITE month"

definition readMonth :: "string io" where
  "readMonth = read_from_regiter RTC_MONTH_READ"

definition writeDayOfTheWeek :: "int \<Rightarrow> unit io" where
  "writeDayOfTheWeek dayOfTheWeek = unlock_then_write RTC_DAY_OF_THE_WEEK_WRITE dayOfTheWeek"

definition readDayOfTheWeek :: "string io" where
  "readDayOfTheWeek = read_from_regiter RTC_DAY_OF_THE_WEEK_READ"

definition writeYear :: "int \<Rightarrow> unit io" where
  "writeYear year =
     then_io (lift_io (prepare_year_for_save year)) (\<lambda>yearForSave.
     unlock_then_write RTC_YEAR_WRITE yearForSave)"

definition readYear :: "string io" where
  "readYear = then_io (read_from_regiter RTC_YEAR_READ) (\<lambda>r. done_io (year_prefix @ r))"

definition start :: "unit io" where
  "start = write_byte RTC_CLOCK_BURST_MODE"

definition getDate :: "string io" where
  "getDate =
     then_io readDayOfTheMonth (\<lambda>day.
     then_io readMonth (\<lambda>month.
     then_io readYear (\<lambda>year.
     then_io readHours (\<lambda>hour.
     then_io readMinutes (\<lambda>min.
     then_io readSeconds (\<lambda>sec.
     then_io readDayOfTheWeek (\<lambda>dayOfTheWeek.
     done_io (''Date: '' @ day @ ''.'' @ month @ ''.'' @ year @ '', '' @ hour @ '':'' @ min
              @ '':'' @ sec @ '', Day: '' @ dayOfTheWeek))))))))"

text \<open>
  The guards of \<open>setDate\<close>, as Python parses them: \<open>&\<close> binds tighter than a comparison,
  so \<open>x & x > lo & x < hi\<close> is the chained comparison \<open>(x & x) > (lo & x) < hi\<close>, that is
  \<open>(x & x) > (lo & x) and (lo & x) < hi\<close>. The year guard \<open>year & year > 0\<close> is
  \<open>(year & year) > 0\<close>. An \<open>if\<close> without \<open>else\<close> is \<open>when_io\<close>.
\<close>

definition when_io :: "bool \<Rightarrow> unit io \<Rightarrow> unit io" where
  "when_io c m = (if c then m else done_io ())"

definition setDate :: "int \<Rightarrow> int \<Rightarrow> int \<Rightarrow> int \<Rightarrow> int \<Rightarrow> int \<Rightarrow> int \<Rightarrow> unit io" where
  "setDate dayOfTheMonth month year hour minute second dayOfWeek =
     then_io (when_io ((dayOfTheMonth AND dayOfTheMonth) > (0 AND dayOfTheMonth)
                       \<and> (0 AND dayOfTheMonth) < 32)
               (writeDayOfTheMonth dayOfTheMonth)) (\<lambda>_.
     then_io (when_io ((month AND month) > (0 AND month) \<and> (0 AND month) < 13)
               (writeMonth month)) (\<lambda>_.
     then_io (when_io ((year AND year) > 0)
               (writeYear year)) (\<lambda>_.
     then_io (when_io ((hour AND hour) > (- 1 AND hour) \<and> (- 1 AND hour) < 23)
               (writeHours hour)) (\<lambda>_.
     then_io (when_io ((minute AND minute) > (- 1 AND minute) \<and> (- 1 AND minute) < 60)
               (writeMinutes minute)) (\<lambda>_.
     then_io (when_io ((second AND second) > (- 1 AND second) \<and> (- 1 AND second) < 60)
               (writeSeconds second)) (\<lambda>_.
     when_io ((dayOfWeek AND dayOfWeek) > (0 AND dayOfWeek) \<and> (0 AND dayOfWeek) < 8)
       (writeDayOfTheWeek dayOfWeek)))))))"

subsection \<open>Describing the pin traffic\<close>

text \<open>
  These definitions are not driver code. They describe what is seen on the pins, in the
  words of the design: a byte goes out least significant bit first, one clock pulse after
  each bit; a transaction is one command byte and one data byte inside a chip-select window.
\<close>

text \<open>The number whose bits, least significant first, are the given levels.\<close>

fun byte_of_levels :: "bool list \<Rightarrow> int" where
  "byte_of_levels [] = 0"
| "byte_of_levels (b # bs) = of_bool b + 2 * byte_of_levels bs"

text \<open>The byte the chip presents on the data line during the \<open>k\<close>-th read from now.\<close>

definition chip_byte :: "bus \<Rightarrow> nat \<Rightarrow> int" where
  "chip_byte s k = byte_of_levels (map (\<lambda>i. line s (taken s + 8 * k + i)) [0..<8])"

definition out_byte :: "int \<Rightarrow> pin_op list" where
  "out_byte b =
     Init DIO OUT #
     concat (map (\<lambda>i. [Put DIO (of_bool (bit b i)), Put CLK 1, Put CLK 0]) [0..<8])"

definition in_byte :: "bus \<Rightarrow> nat \<Rightarrow> pin_op list" where
  "in_byte s k =
     Init DIO IN #
     concat (map (\<lambda>i. [Get DIO (of_bool (line s (taken s + 8 * k + i))), Put CLK 1, Put CLK 0])
               [0..<8])"

definition write_txn :: "int \<Rightarrow> int \<Rightarrow> pin_op list" where
  "write_txn register data =
     Put CS_RST 1 # out_byte register @ out_byte data @ [Put CS_RST 0]"

definition read_txn :: "bus \<Rightarrow> nat \<Rightarrow> int \<Rightarrow> pin_op list" where
  "read_txn s k register =
     Put CS_RST 1 # out_byte register @ in_byte s k @ [Put CS_RST 0]"

text \<open>Unlock, write one field register, lock again.\<close>

definition field_write :: "int \<Rightarrow> int \<Rightarrow> pin_op list" where
  "field_write register bcd =
     write_txn 0x8E 0 @ write_txn register bcd @ write_txn 0x8E 0x80"

text \<open>The levels written to one pin, in order.\<close>

fun levels_put :: "pin \<Rightarrow> pin_op list \<Rightarrow> int list" where
  "levels_put p [] = []"
| "levels_put p (Put q v # rest) = (if q = p then v # levels_put p rest else levels_put p rest)"
| "levels_put p (Init q m # rest) = levels_put p rest"
| "levels_put p (Get q v # rest) = levels_put p rest"

subsection \<open>Example data lines\<close>

text \<open>Buses on which the chip answers the next read with 0x47 and with 0x24.\<close>

definition bus_0x47 :: bus where
  "bus_0x47 = \<lparr>ops = [], line = (\<lambda>k. k \<in> {0, 1, 2, 6}), taken = 0\<rparr>"

definition bus_0x24 :: bus where
  "bus_0x24 = \<lparr>ops = [], line = (\<lambda>k. k \<in> {2, 5}), taken = 0\<rparr>"

text \<open>A bus on which nothing has happened yet.\<close>

definition bus_idle :: bus where
  "bus_idle = \<lparr>ops = [], line = (\<lambda>k. False), taken = 0\<rparr>"

text \<open>
  A bus on which the chip answers seven reads in a row with 0x03, 0x02, 0x24, 0x15, 0x47,
  0x30 and 0x06, each byte least significant bit first.
\<close>

definition bus_date :: bus where
  "bus_date =
     \<lparr>ops = [],
      line = (\<lambda>k. bit ([0x03, 0x02, 0x24, 0x15, 0x47, 0x30, 0x06 :: int] ! (k div 8)) (k mod 8)),
      taken = 0\<rparr>"

section \<open>Properties\<close>

subsection \<open>Bit transport and transactions\<close>

lemmas register_defs =
  RTC_SEC_WRITE_def RTC_SEC_READ_def RTC_MIN_WRITE_def RTC_MIN_READ_def
  RTC_HOUR_WRITE_def RTC_HOUR_READ_def RTC_DAY_OF_THE_MONTH_WRITE_def
  RTC_DAY_OF_THE_MONTH_READ_def RTC_MONTH_WRITE_def RTC_MONTH_READ_def
  RTC_DAY_OF_THE_WEEK_WRITE_def RTC_DAY_OF_THE_WEEK_READ_def RTC_YEAR_WRITE_def
  RTC_YEAR_READ_def RTC_REG_WRITE_PROTECTION_def RTC_CLOCK_BURST_MODE_def

lemma pulse_apply:
  "sample_data_on_the_raising_edge_of_the_clock s =
     (Inr (), s\<lparr>ops := ops s @ [Put CLK 1, Put CLK 0]\<rparr>)"
  by (simp add: sample_data_on_the_raising_edge_of_the_clock_def then_io_def pin_put_def)

lemma bit_level: "drop_bit i (b::int) AND 1 = of_bool (bit b i)"
  by (simp add: and_one_eq bit_iff_odd_drop_bit mod_2_eq_odd)

lemma write_byte_loop_apply:
  "write_byte_loop b is s =
     (Inr (), s\<lparr>ops := ops s @
        concat (map (\<lambda>i. [Put DIO (of_bool (bit b i)), Put CLK 1, Put CLK 0]) is)\<rparr>)"
proof (induction "is" arbitrary: s)
  case Nil
  show ?case by (simp add: done_io_def)
next
  case (Cons i rest)
  show ?case
    by (simp add: Let_def then_io_def pin_put_def pulse_apply Cons.IH bit_level)
qed

lemma write_byte_apply: "write_byte b s = (Inr (), s\<lparr>ops := ops s @ out_byte b\<rparr>)"
  by (simp add: write_byte_def then_io_def pin_init_def write_byte_loop_apply out_byte_def)

lemma write_data_to_register_apply:
  "write_data_to_register r d s = (Inr (), s\<lparr>ops := ops s @ write_txn r d\<rparr>)"
  by (simp add: write_data_to_register_def then_io_def pin_put_def write_byte_apply write_txn_def)

lemma byte_of_levels_Cons_or:
  "byte_of_levels (b # bs) = of_bool b OR push_bit 1 (byte_of_levels bs)"
  by (cases b) (simp_all add: one_or_eq)

lemma read_byte_loop_Cons:
  "read_byte_loop (j # rest) d s =
     read_byte_loop rest (d OR push_bit j (of_bool (line s (taken s))))
       (s\<lparr>taken := Suc (taken s),
          ops := ops s @ [Get DIO (of_bool (line s (taken s))), Put CLK 1, Put CLK 0]\<rparr>)"
  by (simp add: then_io_def pin_get_def pulse_apply Let_def)

text \<open>The loop of \<open>_read_byte\<close> from index \<open>j\<close> on: the invariant of the accumulator.\<close>

lemma read_byte_loop_apply:
  "read_byte_loop [j..<j + n] d s =
     (Inr (d OR push_bit j (byte_of_levels (map (\<lambda>i. line s (taken s + i)) [0..<n]))),
      s\<lparr>taken := taken s + n,
        ops := ops s @
          concat (map (\<lambda>i. [Get DIO (of_bool (line s (taken s + i))), Put CLK 1, Put CLK 0])
                    [0..<n])\<rparr>)"
proof (induction n arbitrary: j d s)
  case 0
  show ?case by (simp add: done_io_def)
next
  case (Suc n)
  define d1 where "d1 = d OR push_bit j (of_bool (line s (taken s)))"
  define s1 where "s1 = s\<lparr>taken := Suc (taken s),
     ops := ops s @ [Get DIO (of_bool (line s (taken s))), Put CLK 1, Put CLK 0]\<rparr>"
  have idx: "[j..<j + Suc n] = j # [Suc j..<Suc j + n]"
    by (simp add: upt_conv_Cons)
  have "read_byte_loop [j..<j + Suc n] d s = read_byte_loop [Suc j..<Suc j + n] d1 s1"
    unfolding idx d1_def s1_def by (rule read_byte_loop_Cons)
  also have "\<dots> =
     (Inr (d1 OR push_bit (Suc j) (byte_of_levels (map (\<lambda>i. line s1 (taken s1 + i)) [0..<n]))),
      s1\<lparr>taken := taken s1 + n,
        ops := ops s1 @
          concat (map (\<lambda>i. [Get DIO (of_bool (line s1 (taken s1 + i))), Put CLK 1, Put CLK 0])
                    [0..<n])\<rparr>)"
    by (rule Suc.IH)
  also have "\<dots> =
     (Inr (d OR push_bit j (byte_of_levels (map (\<lambda>i. line s (taken s + i)) [0..<Suc n]))),
      s\<lparr>taken := taken s + Suc n,
        ops := ops s @
          concat (map (\<lambda>i. [Get DIO (of_bool (line s (taken s + i))), Put CLK 1, Put CLK 0])
                    [0..<Suc n])\<rparr>)"
    by (simp add: d1_def s1_def map_upt_Suc byte_of_levels_Cons_or push_bit_or or.assoc
        del: upt_Suc byte_of_levels.simps)
  finally show ?case .
qed

lemma read_byte_apply:
  "read_byte s =
     (Inr (chip_byte s 0), s\<lparr>taken := taken s + 8, ops := ops s @ in_byte s 0\<rparr>)"
  using read_byte_loop_apply [of 0 8 0 "s\<lparr>ops := ops s @ [Init DIO IN]\<rparr>"]
  by (simp add: read_byte_def then_io_def pin_init_def chip_byte_def in_byte_def)

lemma read_from_regiter_apply:
  "read_from_regiter r s =
     (Inr (bcd_to_string (chip_byte s 0)),
      s\<lparr>taken := taken s + 8, ops := ops s @ read_txn s 0 r\<rparr>)"
  by (simp add: read_from_regiter_def then_io_def pin_put_def write_byte_apply read_byte_apply
      done_io_def read_txn_def chip_byte_def in_byte_def)

subsection \<open>The BCD codec\<close>

lemma nibble_low:
  assumes "0 \<le> u" "u < 16"
  shows "(push_bit 4 t OR u) AND 15 = (u::int)"
proof -
  have m: "(15::int) = mask 4" by (simp add: mask_eq_exp_minus_1)
  have "take_bit 4 u = u" using assms by (simp add: take_bit_int_eq_self)
  then show ?thesis
    unfolding m by (simp add: take_bit_eq_mask [symmetric] take_bit_push_bit)
qed

lemma nibble_high:
  assumes "0 \<le> u" "u < 16" "0 \<le> t" "t < 16"
  shows "drop_bit 4 (push_bit 4 t OR u) AND 15 = (t::int)"
proof -
  have m: "(15::int) = mask 4" by (simp add: mask_eq_exp_minus_1)
  have "take_bit 4 t = t" using assms by (simp add: take_bit_int_eq_self)
  moreover have "drop_bit 4 u = 0" using assms by (simp add: drop_bit_eq_div)
  ultimately show ?thesis
    unfolding m by (simp add: take_bit_eq_mask [symmetric] drop_bit_push_bit)
qed

lemma int_to_bcd_in_range:
  assumes "0 \<le> v" "v \<le> 99"
  shows "int_to_bcd v = Inr (push_bit 4 (v div 10) OR (v mod 10))"
  using assms by (simp add: int_to_bcd_def Let_def)

lemma decode_after_encode:
  assumes "0 \<le> v" "v \<le> 99"
  shows "bcd_to_string (push_bit 4 (v div 10) OR (v mod 10)) = str v"
proof -
  have t: "0 \<le> v div 10" "v div 10 < 16" using assms by auto
  have u: "0 \<le> v mod 10" "v mod 10 < 16" using assms by auto
  have "(drop_bit 4 (push_bit 4 (v div 10) OR (v mod 10)) AND 15) * 10
          + ((push_bit 4 (v div 10) OR (v mod 10)) AND 15) = v div 10 * 10 + v mod 10"
    by (simp only: nibble_high [OF u t] nibble_low [OF u])
  then show ?thesis by (simp add: bcd_to_string_def Let_def)
qed

text \<open>
  Claim C2. For every integer \<open>v\<close> from 0 to 99, \<open>_int_to_bcd\<close> returns a byte, and
  \<open>_bcd_to_string\<close> of that byte is the decimal string of \<open>v\<close>.
\<close>

theorem bcd_roundtrip:
  assumes "0 \<le> v" "v \<le> 99"
  shows "\<exists>b. int_to_bcd v = Inr b \<and> bcd_to_string b = str v"
  using assms by (simp add: int_to_bcd_in_range decode_after_encode)

theorem bcd_roundtrip_witness:
  "(0::int) \<le> 59 \<and> (59::int) \<le> 99 \<and> int_to_bcd 59 = Inr 0x59 \<and> bcd_to_string 0x59 = ''59''
   \<and> (\<exists>b. int_to_bcd 59 = Inr b \<and> bcd_to_string b = str 59)"
  using bcd_roundtrip [of 59]
  by (simp add: int_to_bcd_def bcd_to_string_def str_def decimal.simps digit_char_def)

lemma pack_nibbles:
  assumes "0 \<le> u" "u < 16"
  shows "push_bit 4 t OR u = 16 * t + (u::int)"
proof -
  let ?x = "push_bit 4 t OR u"
  have "take_bit 4 u = u" using assms by (simp add: take_bit_int_eq_self)
  then have lo: "?x mod 16 = u"
    using take_bit_eq_mod [of 4 ?x] by (simp add: take_bit_push_bit)
  have "drop_bit 4 u = 0" using assms by (simp add: drop_bit_eq_div)
  then have hi: "?x div 16 = t"
    using drop_bit_eq_div [of 4 ?x] by (simp add: drop_bit_push_bit)
  have "?x = 16 * (?x div 16) + ?x mod 16" by simp
  then show ?thesis by (simp only: lo hi)
qed

text \<open>
  Claim C6. \<open>_int_to_bcd\<close> raises ValueError for every integer below 0 or above 99. For
  every integer from 0 to 99 it returns \<open>(v // 10) << 4 | (v % 10)\<close>, the byte
  \<open>16 * (v // 10) + v % 10\<close>. It maps 0 to 0x00, 59 to 0x59 and 99 to 0x99.
\<close>

theorem int_to_bcd_spec:
  "(u < 0 \<or> 99 < u \<longrightarrow> int_to_bcd u = Inl ValueError) \<and>
   (0 \<le> v \<and> v \<le> 99 \<longrightarrow>
      int_to_bcd v = Inr (push_bit 4 (v div 10) OR (v mod 10)) \<and>
      int_to_bcd v = Inr (16 * (v div 10) + v mod 10)) \<and>
   int_to_bcd 0 = Inr 0x00 \<and> int_to_bcd 59 = Inr 0x59 \<and> int_to_bcd 99 = Inr 0x99"
proof (intro conjI impI)
  assume "u < 0 \<or> 99 < u"
  then show "int_to_bcd u = Inl ValueError" by (auto simp: int_to_bcd_def)
next
  assume r: "0 \<le> v \<and> v \<le> 99"
  then show a: "int_to_bcd v = Inr (push_bit 4 (v div 10) OR (v mod 10))"
    by (simp add: int_to_bcd_in_range)
  have "0 \<le> v mod 10" "v mod 10 < 16" using r by auto
  then show "int_to_bcd v = Inr (16 * (v div 10) + v mod 10)"
    unfolding a by (simp only: pack_nibbles)
qed (simp_all add: int_to_bcd_def)

theorem int_to_bcd_spec_witness:
  "((100::int) < 0 \<or> 99 < (100::int)) \<and> int_to_bcd 100 = Inl ValueError \<and>
   (0 \<le> (30::int) \<and> (30::int) \<le> 99) \<and> int_to_bcd 30 = Inr 0x30"
  using int_to_bcd_spec [of 100 30] by simp

subsection \<open>Reading\<close>

lemma byte_of_levels_range: "0 \<le> byte_of_levels bs \<and> byte_of_levels bs < 2 ^ length bs"
  by (induction bs) auto

lemma chip_byte_range: "0 \<le> chip_byte s k \<and> chip_byte s k < 256"
  using byte_of_levels_range [of "map (\<lambda>i. line s (taken s + 8 * k + i)) [0..<8]"]
  by (simp add: chip_byte_def del: upt_Suc byte_of_levels.simps)

lemma byte_nibbles:
  assumes "0 \<le> b" "b < 256"
  shows "drop_bit 4 b AND 15 = b div 16" and "b AND 15 = (b::int) mod 16"
proof -
  have m: "(15::int) = mask 4" by (simp add: mask_eq_exp_minus_1)
  have "0 \<le> b div 16" "b div 16 < 16" using assms by auto
  then have "take_bit 4 (b div 16) = b div 16" by (simp add: take_bit_int_eq_self)
  then show "drop_bit 4 b AND 15 = b div 16"
    unfolding m by (simp add: take_bit_eq_mask [symmetric] drop_bit_eq_div)
  show "b AND 15 = b mod 16"
    unfolding m by (simp add: take_bit_eq_mask [symmetric] take_bit_eq_mod)
qed

text \<open>
  Claim C9. For every byte \<open>b\<close> (0 to 255, whatever its nibbles), \<open>_bcd_to_string\<close>
  returns the decimal string of \<open>((b >> 4) & 0xF) * 10 + (b & 0xF)\<close>, that is of
  \<open>(b // 16) * 10 + b % 16\<close>; it has no failing branch. A register read on which the chip
  presents \<open>b\<close> returns that string: \<open>''47''\<close> for 0x47, and \<open>''165''\<close> for the
  malformed byte 0xFF.
\<close>

theorem bcd_to_string_any_byte:
  assumes "0 \<le> b" "b < 256"
  shows "bcd_to_string b = str ((drop_bit 4 b AND 0xF) * 10 + (b AND 0xF)) \<and>
         bcd_to_string b = str (b div 16 * 10 + b mod 16) \<and>
         (\<forall>r s. chip_byte s 0 = b \<longrightarrow> fst (read_from_regiter r s) = Inr (bcd_to_string b)) \<and>
         bcd_to_string 0x47 = ''47'' \<and> bcd_to_string 0xFF = ''165''"
proof (intro conjI allI impI)
  show "bcd_to_string b = str ((drop_bit 4 b AND 0xF) * 10 + (b AND 0xF))"
    by (simp add: bcd_to_string_def Let_def)
  then show "bcd_to_string b = str (b div 16 * 10 + b mod 16)"
    by (simp only: byte_nibbles [OF assms])
  show "bcd_to_string 0x47 = ''47''"
    by (simp add: bcd_to_string_def str_def decimal.simps digit_char_def)
  show "bcd_to_string 0xFF = ''165''"
    by (simp add: bcd_to_string_def str_def decimal.simps digit_char_def)
next
  fix r s
  assume "chip_byte s 0 = b"
  then show "fst (read_from_regiter r s) = Inr (bcd_to_string b)"
    by (simp add: read_from_regiter_apply)
qed

lemma chip_byte_bus_0x47: "chip_byte bus_0x47 0 = 0x47"
  by (simp add: chip_byte_def bus_0x47_def upt_rec)

theorem bcd_to_string_any_byte_witness:
  "(0::int) \<le> 0x47 \<and> (0x47::int) < 256 \<and> chip_byte bus_0x47 0 = 0x47 \<and>
   fst (read_from_regiter RTC_SEC_READ bus_0x47) = Inr ''47''"
  using bcd_to_string_any_byte [of "0x47"] chip_byte_bus_0x47
  by (simp add: str_def decimal.simps digit_char_def)

lemma chip_byte_shift:
  "chip_byte (s\<lparr>taken := taken s + 8 * j, ops := x\<rparr>) k = chip_byte s (j + k)"
  by (simp add: chip_byte_def add.assoc distrib_left del: upt_Suc)

lemma in_byte_shift:
  "in_byte (s\<lparr>taken := taken s + 8 * j, ops := x\<rparr>) k = in_byte s (j + k)"
  by (simp add: in_byte_def add.assoc distrib_left del: upt_Suc)

lemma read_from_regiter_at:
  "read_from_regiter r (s\<lparr>taken := taken s + 8 * j, ops := x\<rparr>) =
     (Inr (bcd_to_string (chip_byte s j)),
      s\<lparr>taken := taken s + 8 * Suc j, ops := x @ read_txn s j r\<rparr>)"
  using chip_byte_shift [where s = s and j = j and x = x and k = 0]
    in_byte_shift [where s = s and j = j and x = x and k = 0]
  by (simp add: read_from_regiter_apply read_txn_def)

text \<open>What \<open>_bcd_to_string\<close> makes of a byte read from the chip.\<close>

lemma bcd_to_string_chip_byte:
  "bcd_to_string (chip_byte s k) = str (chip_byte s k div 16 * 10 + chip_byte s k mod 16)"
proof -
  have r: "0 \<le> chip_byte s k" "chip_byte s k < 256"
    using chip_byte_range [of s k] by simp_all
  have "bcd_to_string (chip_byte s k) =
      str ((drop_bit 4 (chip_byte s k) AND 15) * 10 + (chip_byte s k AND 15))"
    by (simp add: bcd_to_string_def Let_def)
  then show ?thesis by (simp only: byte_nibbles [OF r])
qed

text \<open>
  Claim C7. \<open>readYear\<close> is one read transaction on the year register 0x8D. With \<open>b\<close>
  the byte the chip presents, it returns \<open>''20''\<close> followed by the decimal string of
  \<open>(b // 16) * 10 + b % 16\<close>, the number whose BCD code is \<open>b\<close>; when the chip presents
  0x24 the result is \<open>''2024''\<close>.
\<close>

theorem readYear_prefix:
  "readYear s =
     (Inr (''20'' @ str (chip_byte s 0 div 16 * 10 + chip_byte s 0 mod 16)),
      s\<lparr>taken := taken s + 8, ops := ops s @ read_txn s 0 0x8D\<rparr>) \<and>
   (chip_byte s 0 = 0x24 \<longrightarrow> fst (readYear s) = Inr ''2024'')"
proof (intro conjI impI)
  show r: "readYear s =
     (Inr (''20'' @ str (chip_byte s 0 div 16 * 10 + chip_byte s 0 mod 16)),
      s\<lparr>taken := taken s + 8, ops := ops s @ read_txn s 0 0x8D\<rparr>)"
    by (simp add: readYear_def then_io_def read_from_regiter_apply done_io_def year_prefix_def
        RTC_YEAR_READ_def bcd_to_string_chip_byte)
  assume "chip_byte s 0 = 0x24"
  then show "fst (readYear s) = Inr ''2024''"
    unfolding r by (simp add: str_def decimal.simps digit_char_def)
qed

theorem readYear_prefix_witness:
  "chip_byte bus_0x24 0 = 0x24 \<and> fst (readYear bus_0x24) = Inr ''2024''"
proof -
  have c: "chip_byte bus_0x24 0 = 0x24"
    by (simp add: chip_byte_def bus_0x24_def upt_rec)
  with readYear_prefix [of bus_0x24] show ?thesis
    by (simp add: str_def decimal.simps digit_char_def)
qed

text \<open>
  Claim C8. \<open>getDate\<close> performs seven read transactions, each in its own chip-select
  window, on the registers of day, month, year, hour, minute, second and weekday in that
  order. With \<open>b\<close> the byte the chip presents in a transaction, the field of that
  transaction is the decimal string of \<open>(b // 16) * 10 + b % 16\<close>, the number whose BCD
  code is \<open>b\<close>. The result is \<open>Date: D.M.20Y, H:Min:S, Day: W\<close> of these seven fields.
\<close>

theorem getDate_reads:
  "getDate s =
     (Inr (''Date: '' @ str (chip_byte s 0 div 16 * 10 + chip_byte s 0 mod 16)
           @ ''.'' @ str (chip_byte s 1 div 16 * 10 + chip_byte s 1 mod 16)
           @ ''.'' @ ''20'' @ str (chip_byte s 2 div 16 * 10 + chip_byte s 2 mod 16)
           @ '', '' @ str (chip_byte s 3 div 16 * 10 + chip_byte s 3 mod 16)
           @ '':'' @ str (chip_byte s 4 div 16 * 10 + chip_byte s 4 mod 16)
           @ '':'' @ str (chip_byte s 5 div 16 * 10 + chip_byte s 5 mod 16)
           @ '', Day: '' @ str (chip_byte s 6 div 16 * 10 + chip_byte s 6 mod 16)),
      s\<lparr>taken := taken s + 56,
        ops := ops s @ read_txn s 0 0x87 @ read_txn s 1 0x89 @ read_txn s 2 0x8D
               @ read_txn s 3 0x85 @ read_txn s 4 0x83 @ read_txn s 5 0x81
               @ read_txn s 6 0x8B\<rparr>)"
proof -
  define x1 where "x1 = ops s @ read_txn s 0 0x87"
  define x2 where "x2 = x1 @ read_txn s 1 0x89"
  define x3 where "x3 = x2 @ read_txn s 2 0x8D"
  define x4 where "x4 = x3 @ read_txn s 3 0x85"
  define x5 where "x5 = x4 @ read_txn s 4 0x83"
  define x6 where "x6 = x5 @ read_txn s 5 0x81"
  define x7 where "x7 = x6 @ read_txn s 6 0x8B"
  have r0: "read_from_regiter 0x87 s =
      (Inr (str (chip_byte s 0 div 16 * 10 + chip_byte s 0 mod 16)), s\<lparr>taken := taken s + 8, ops := x1\<rparr>)"
    by (simp add: read_from_regiter_apply x1_def bcd_to_string_chip_byte)
  have r1: "read_from_regiter 0x89 (s\<lparr>taken := taken s + 8, ops := x1\<rparr>) =
      (Inr (str (chip_byte s 1 div 16 * 10 + chip_byte s 1 mod 16)), s\<lparr>taken := taken s + 16, ops := x2\<rparr>)"
    using read_from_regiter_at [where s = s and j = 1 and r = "0x89" and x = x1]
    by (simp add: x2_def bcd_to_string_chip_byte)
  have r2: "read_from_regiter 0x8D (s\<lparr>taken := taken s + 16, ops := x2\<rparr>) =
      (Inr (str (chip_byte s 2 div 16 * 10 + chip_byte s 2 mod 16)), s\<lparr>taken := taken s + 24, ops := x3\<rparr>)"
    using read_from_regiter_at [where s = s and j = 2 and r = "0x8D" and x = x2]
    by (simp add: x3_def bcd_to_string_chip_byte)
  have r3: "read_from_regiter 0x85 (s\<lparr>taken := taken s + 24, ops := x3\<rparr>) =
      (Inr (str (chip_byte s 3 div 16 * 10 + chip_byte s 3 mod 16)), s\<lparr>taken := taken s + 32, ops := x4\<rparr>)"
    using read_from_regiter_at [where s = s and j = 3 and r = "0x85" and x = x3]
    by (simp add: x4_def bcd_to_string_chip_byte)
  have r4: "read_from_regiter 0x83 (s\<lparr>taken := taken s + 32, ops := x4\<rparr>) =
      (Inr (str (chip_byte s 4 div 16 * 10 + chip_byte s 4 mod 16)), s\<lparr>taken := taken s + 40, ops := x5\<rparr>)"
    using read_from_regiter_at [where s = s and j = 4 and r = "0x83" and x = x4]
    by (simp add: x5_def bcd_to_string_chip_byte)
  have r5: "read_from_regiter 0x81 (s\<lparr>taken := taken s + 40, ops := x5\<rparr>) =
      (Inr (str (chip_byte s 5 div 16 * 10 + chip_byte s 5 mod 16)), s\<lparr>taken := taken s + 48, ops := x6\<rparr>)"
    using read_from_regiter_at [where s = s and j = 5 and r = "0x81" and x = x5]
    by (simp add: x6_def bcd_to_string_chip_byte)
  have r6: "read_from_regiter 0x8B (s\<lparr>taken := taken s + 48, ops := x6\<rparr>) =
      (Inr (str (chip_byte s 6 div 16 * 10 + chip_byte s 6 mod 16)), s\<lparr>taken := taken s + 56, ops := x7\<rparr>)"
    using read_from_regiter_at [where s = s and j = 6 and r = "0x8B" and x = x6]
    by (simp add: x7_def bcd_to_string_chip_byte)
  have x7: "x7 = ops s @ read_txn s 0 0x87 @ read_txn s 1 0x89 @ read_txn s 2 0x8D
               @ read_txn s 3 0x85 @ read_txn s 4 0x83 @ read_txn s 5 0x81
               @ read_txn s 6 0x8B"
    by (simp add: x1_def x2_def x3_def x4_def x5_def x6_def x7_def)
  show ?thesis
    unfolding x7 [symmetric]
    by (simp add: getDate_def readDayOfTheMonth_def readMonth_def readYear_def readHours_def
        readMinutes_def readSeconds_def readDayOfTheWeek_def then_io_def done_io_def
        r0 r1 r2 r3 r4 r5 r6 year_prefix_def register_defs)
qed

lemma chip_byte_bus_date:
  "chip_byte bus_date 0 = 0x03" "chip_byte bus_date 1 = 0x02" "chip_byte bus_date 2 = 0x24"
  "chip_byte bus_date 3 = 0x15" "chip_byte bus_date 4 = 0x47" "chip_byte bus_date 5 = 0x30"
  "chip_byte bus_date 6 = 0x06"
  by (simp_all add: chip_byte_def bus_date_def upt_rec)

theorem getDate_reads_witness:
  "fst (getDate bus_date) = Inr ''Date: 3.2.2024, 15:47:30, Day: 6''"
  using getDate_reads [of bus_date]
  by (simp only: chip_byte_bus_date) (simp add: str_def decimal.simps digit_char_def)

subsection \<open>Writing\<close>

lemma levels_put_append: "levels_put p (xs @ ys) = levels_put p xs @ levels_put p ys"
  by (induction p xs rule: levels_put.induct) simp_all

lemma levels_put_out_byte:
  "levels_put CS_RST (out_byte b) = []"
  "levels_put DIO (out_byte b) = map (\<lambda>i. of_bool (bit b i)) [0..<8]"
  "levels_put CLK (out_byte b) = concat (replicate 8 [1, 0])"
  by (simp_all add: out_byte_def upt_rec eval_nat_numeral)

lemma levels_put_write_txn: "levels_put CS_RST (write_txn r d) = [1, 0]"
  by (simp add: write_txn_def levels_put_append levels_put_out_byte)

text \<open>
  Claim C4. For every byte \<open>b\<close>, \<open>_write_byte\<close> configures the data pin as output and
  then, for the bit positions 0 to 7 in that order, sets the data pin to the bit and
  pulses the clock high then low. Nothing else is done. For 0b10000000 the data pin
  takes the values 0, 0, 0, 0, 0, 0, 0, 1.
\<close>

theorem write_byte_lsb_first:
  "write_byte b s =
     (Inr (), s\<lparr>ops := ops s @ Init DIO OUT #
        concat (map (\<lambda>i. [Put DIO (of_bool (bit b i)), Put CLK 1, Put CLK 0]) [0..<8])\<rparr>) \<and>
   levels_put DIO (ops (snd (write_byte b s))) =
     levels_put DIO (ops s) @ map (\<lambda>i. of_bool (bit b i)) [0..<8] \<and>
   levels_put CLK (ops (snd (write_byte b s))) =
     levels_put CLK (ops s) @ [1, 0, 1, 0, 1, 0, 1, 0, 1, 0, 1, 0, 1, 0, 1, 0] \<and>
   write_byte 0x80 s = (Inr (), s\<lparr>ops := ops s @
      [Init DIO OUT,
       Put DIO 0, Put CLK 1, Put CLK 0, Put DIO 0, Put CLK 1, Put CLK 0,
       Put DIO 0, Put CLK 1, Put CLK 0, Put DIO 0, Put CLK 1, Put CLK 0,
       Put DIO 0, Put CLK 1, Put CLK 0, Put DIO 0, Put CLK 1, Put CLK 0,
       Put DIO 0, Put CLK 1, Put CLK 0, Put DIO 1, Put CLK 1, Put CLK 0]\<rparr>) \<and>
   levels_put DIO (ops (snd (write_byte 0x80 s))) =
     levels_put DIO (ops s) @ [0, 0, 0, 0, 0, 0, 0, 1]"
proof (intro conjI)
  show "write_byte b s =
     (Inr (), s\<lparr>ops := ops s @ Init DIO OUT #
        concat (map (\<lambda>i. [Put DIO (of_bool (bit b i)), Put CLK 1, Put CLK 0]) [0..<8])\<rparr>)"
    using write_byte_apply [of b s] by (simp only: out_byte_def)
  show "levels_put DIO (ops (snd (write_byte b s))) =
     levels_put DIO (ops s) @ map (\<lambda>i. of_bool (bit b i)) [0..<8]"
    by (simp only: write_byte_apply levels_put_append levels_put_out_byte)
      (simp add: levels_put_append levels_put_out_byte)
  show "levels_put CLK (ops (snd (write_byte b s))) =
     levels_put CLK (ops s) @ [1, 0, 1, 0, 1, 0, 1, 0, 1, 0, 1, 0, 1, 0, 1, 0]"
    by (simp add: write_byte_apply levels_put_append levels_put_out_byte eval_nat_numeral)
  show "write_byte 0x80 s = (Inr (), s\<lparr>ops := ops s @
      [Init DIO OUT,
       Put DIO 0, Put CLK 1, Put CLK 0, Put DIO 0, Put CLK 1, Put CLK 0,
       Put DIO 0, Put CLK 1, Put CLK 0, Put DIO 0, Put CLK 1, Put CLK 0,
       Put DIO 0, Put CLK 1, Put CLK 0, Put DIO 0, Put CLK 1, Put CLK 0,
       Put DIO 0, Put CLK 1, Put CLK 0, Put DIO 1, Put CLK 1, Put CLK 0]\<rparr>)"
    by (simp add: write_byte_apply out_byte_def upt_rec bit_numeral_simps)
  show "levels_put DIO (ops (snd (write_byte 0x80 s))) =
     levels_put DIO (ops s) @ [0, 0, 0, 0, 0, 0, 0, 1]"
    by (simp add: write_byte_apply levels_put_append out_byte_def upt_rec)
qed

lemma unlock_then_write_apply:
  assumes "0 \<le> v" "v \<le> 99"
  shows "unlock_then_write r v s =
     (Inr (), s\<lparr>ops := ops s @ field_write r (16 * (v div 10) + v mod 10)\<rparr>)"
proof -
  have "0 \<le> v mod 10" "v mod 10 < 16" using assms by auto
  then have "int_to_bcd v = Inr (16 * (v div 10) + v mod 10)"
    using assms by (simp add: int_to_bcd_in_range pack_nibbles)
  then show ?thesis
    by (simp add: unlock_then_write_def then_io_def lift_io_def done_io_def
        write_data_to_register_apply field_write_def RTC_REG_WRITE_PROTECTION_def)
qed

lemma unlock_then_write_raises:
  assumes "v < 0 \<or> 99 < v"
  shows "unlock_then_write r v s = (Inl ValueError, s)"
  using assms
  by (auto simp: unlock_then_write_def then_io_def lift_io_def raise_io_def int_to_bcd_def)

subsection \<open>Decimal strings and the year slice\<close>

lemma digit_cases: "d < 10 \<Longrightarrow> d \<in> {0, 1, 2, 3, 4, 5, 6, 7, 8, 9::nat}"
  by auto

lemma digit_char_props:
  assumes "d < 10"
  shows "is_digit (digit_char d)" and "digit_value (digit_char d) = int d"
  using digit_cases [OF assms] by (auto simp: is_digit_def digit_char_def digit_value_def)

lemma decimal_one: "n < 10 \<Longrightarrow> decimal n = [digit_char n]"
  by (simp add: decimal.simps)

lemma decimal_step: "10 \<le> n \<Longrightarrow> decimal n = decimal (n div 10) @ [digit_char (n mod 10)]"
  by (subst decimal.simps) simp

lemma decimal_two:
  "10 \<le> n \<Longrightarrow> n < 100 \<Longrightarrow> decimal n = [digit_char (n div 10), digit_char (n mod 10)]"
  by (simp add: decimal_step decimal_one)

lemma decimal_nonempty: "decimal n \<noteq> []"
  by (subst decimal.simps) simp

lemma decimal_digits: "list_all is_digit (decimal n)"
proof (induction n rule: decimal.induct)
  case (1 n)
  show ?case
  proof (cases "n < 10")
    case True
    then show ?thesis by (simp add: decimal_one digit_char_props)
  next
    case False
    with 1 show ?thesis by (simp add: decimal_step digit_char_props)
  qed
qed

lemma decimal_long: "100 \<le> n \<Longrightarrow> 3 \<le> length (decimal n)"
proof -
  assume n: "100 \<le> n"
  then have "decimal n = decimal (n div 100) @ [digit_char (n div 10 mod 10), digit_char (n mod 10)]"
    by (simp add: decimal_step [of n] decimal_step [of "n div 10"] div_mult2_eq [symmetric])
  moreover have "1 \<le> length (decimal (n div 100))"
    using decimal_nonempty [of "n div 100"] by (cases "decimal (n div 100)") simp_all
  ultimately show ?thesis by simp
qed

lemma str_short: "0 \<le> y \<Longrightarrow> y < 100 \<Longrightarrow> length (str y) \<le> 2"
  by (cases "nat y < 10") (simp_all add: str_def decimal_one decimal_two)

lemma str_digits_from_1: "list_all is_digit (drop 1 (str y))"
proof (cases "y < 0")
  case True
  then show ?thesis by (simp add: str_def decimal_digits)
next
  case False
  have "set (drop 1 (decimal (nat y))) \<subseteq> set (decimal (nat y))" by (rule set_drop_subset)
  with False show ?thesis
    using decimal_digits [of "nat y"] by (auto simp: str_def list_all_iff)
qed

lemma list_all_drop: "list_all P xs \<Longrightarrow> list_all P (drop n xs)"
  by (auto simp: list_all_iff dest: in_set_dropD)

lemma list_all_take: "list_all P xs \<Longrightarrow> list_all P (take n xs)"
  by (auto simp: list_all_iff dest: in_set_takeD)

lemma year_slice_digits: "list_all is_digit (take 2 (drop 2 (str year)))"
proof -
  have "list_all is_digit (drop 1 (drop 1 (str year)))"
    by (rule list_all_drop [OF str_digits_from_1])
  then have "list_all is_digit (drop 2 (str year))"
    by (simp add: numeral_2_eq_2)
  then show ?thesis by (rule list_all_take)
qed

lemma int_of_str_range:
  assumes "int_of_str cs = Inr v" "length cs \<le> 2"
  shows "0 \<le> v \<and> v \<le> 99"
proof -
  have d: "is_digit c \<Longrightarrow> 0 \<le> digit_value c \<and> digit_value c \<le> 9" for c
    by (auto simp: is_digit_def digit_value_def)
  from assms have ok: "cs \<noteq> []" "list_all is_digit cs"
    and v: "v = foldl (\<lambda>acc c. 10 * acc + digit_value c) 0 cs"
    by (auto simp: int_of_str_def split: if_splits)
  from ok assms(2) consider a where "cs = [a]" | a b where "cs = [a, b]"
    by (cases cs; cases "tl cs"; cases "tl (tl cs)") auto
  then show ?thesis
  proof cases
    case 1
    with ok v d [of a] show ?thesis by simp
  next
    case 2
    with ok v d [of a] d [of b] show ?thesis by simp
  qed
qed

lemma prepare_year_range:
  "prepare_year_for_save y = Inr v \<Longrightarrow> 0 \<le> v \<and> v \<le> 99"
  by (rule int_of_str_range [of "take 2 (drop 2 (str y))"]) (simp_all add: prepare_year_for_save_def)

lemma prepare_year_short:
  "0 \<le> y \<Longrightarrow> y < 100 \<Longrightarrow> prepare_year_for_save y = Inl ValueError"
  using str_short [of y] by (simp add: prepare_year_for_save_def int_of_str_def)

lemma prepare_year_needs_three: "prepare_year_for_save y = Inr v \<Longrightarrow> 3 \<le> length (str y)"
proof (rule ccontr)
  assume p: "prepare_year_for_save y = Inr v" and "\<not> 3 \<le> length (str y)"
  then have "drop 2 (str y) = []" by simp
  with p show False by (simp add: prepare_year_for_save_def int_of_str_def)
qed

lemma prepare_year_long:
  assumes "100 \<le> y"
  shows "\<exists>v. prepare_year_for_save y = Inr v"
proof -
  have "3 \<le> length (str y)" using assms decimal_long [of "nat y"] by (simp add: str_def)
  then have "take 2 (drop 2 (str y)) \<noteq> []" by auto
  then show ?thesis
    using year_slice_digits [of y] by (simp add: prepare_year_for_save_def int_of_str_def)
qed

lemma prepare_year_2024: "prepare_year_for_save 2024 = Inr 24"
  by (simp add: prepare_year_for_save_def str_def decimal.simps digit_char_def int_of_str_def
      is_digit_def digit_value_def)

lemma writeYear_apply:
  assumes "prepare_year_for_save y = Inr v"
  shows "writeYear y s =
     (Inr (), s\<lparr>ops := ops s @ field_write 0x8C (16 * (v div 10) + v mod 10)\<rparr>)"
  using assms prepare_year_range [OF assms]
  by (simp add: writeYear_def then_io_def lift_io_def done_io_def unlock_then_write_apply
      RTC_YEAR_WRITE_def)

subsection \<open>Field writes\<close>

text \<open>
  Claim C3. A per-field write of a value from 0 to 99 (for \<open>writeYear\<close>: of a year whose
  two-character slice converts) issues exactly three register transactions in order:
  (0x8E, 0), (the field's write address, the BCD byte of the value), (0x8E, 0x80). Each
  transaction raises chip-select, sends the two bytes and lowers chip-select; chip-select
  is touched nowhere else, so the levels a write puts on it are 1, 0, 1, 0, 1, 0. A value
  outside 0 to 99 raises ValueError before the first transaction.
\<close>

theorem field_write_three_transactions:
  assumes "0 \<le> v" "v \<le> 99" and "prepare_year_for_save y = Inr w"
  shows "writeSeconds v s =
           (Inr (), s\<lparr>ops := ops s @ write_txn 0x8E 0
                      @ write_txn 0x80 (16 * (v div 10) + v mod 10) @ write_txn 0x8E 0x80\<rparr>) \<and>
         writeMinutes v s =
           (Inr (), s\<lparr>ops := ops s @ field_write 0x82 (16 * (v div 10) + v mod 10)\<rparr>) \<and>
         writeHours v s =
           (Inr (), s\<lparr>ops := ops s @ field_write 0x84 (16 * (v div 10) + v mod 10)\<rparr>) \<and>
         writeDayOfTheMonth v s =
           (Inr (), s\<lparr>ops := ops s @ field_write 0x86 (16 * (v div 10) + v mod 10)\<rparr>) \<and>
         writeMonth v s =
           (Inr (), s\<lparr>ops := ops s @ field_write 0x88 (16 * (v div 10) + v mod 10)\<rparr>) \<and>
         writeDayOfTheWeek v s =
           (Inr (), s\<lparr>ops := ops s @ field_write 0x8A (16 * (v div 10) + v mod 10)\<rparr>) \<and>
         writeYear y s =
           (Inr (), s\<lparr>ops := ops s @ field_write 0x8C (16 * (w div 10) + w mod 10)\<rparr>) \<and>
         (\<forall>r d. field_write r d = write_txn 0x8E 0 @ write_txn r d @ write_txn 0x8E 0x80) \<and>
         (\<forall>r d. write_txn r d = Put CS_RST 1 # out_byte r @ out_byte d @ [Put CS_RST 0]) \<and>
         (\<forall>b. levels_put CS_RST (out_byte b) = []) \<and>
         (\<forall>r. levels_put CS_RST (ops (snd (unlock_then_write r v s))) =
                levels_put CS_RST (ops s) @ [1, 0, 1, 0, 1, 0]) \<and>
         (\<forall>r u t. u < 0 \<or> 99 < u \<longrightarrow> unlock_then_write r u t = (Inl ValueError, t))"
proof (intro conjI allI impI)
  show "writeSeconds v s =
           (Inr (), s\<lparr>ops := ops s @ write_txn 0x8E 0
                      @ write_txn 0x80 (16 * (v div 10) + v mod 10) @ write_txn 0x8E 0x80\<rparr>)"
    using assms(1,2) by (simp add: writeSeconds_def RTC_SEC_WRITE_def unlock_then_write_apply
        field_write_def)
  show "writeYear y s =
           (Inr (), s\<lparr>ops := ops s @ field_write 0x8C (16 * (w div 10) + w mod 10)\<rparr>)"
    using assms(3) by (rule writeYear_apply)
  show "levels_put CS_RST (ops (snd (unlock_then_write r v s))) =
      levels_put CS_RST (ops s) @ [1, 0, 1, 0, 1, 0]" for r
    using assms(1,2)
    by (simp add: unlock_then_write_apply field_write_def levels_put_append levels_put_write_txn)
  show "unlock_then_write r u t = (Inl ValueError, t)" if "u < 0 \<or> 99 < u" for r u t
    using that by (rule unlock_then_write_raises)
qed (use assms(1,2) in \<open>simp_all add: writeMinutes_def writeHours_def writeDayOfTheMonth_def
      writeMonth_def writeDayOfTheWeek_def register_defs unlock_then_write_apply
      field_write_def write_txn_def levels_put_out_byte\<close>)

theorem field_write_three_transactions_witness:
  "(0::int) \<le> 30 \<and> (30::int) \<le> 99 \<and> prepare_year_for_save 2024 = Inr 24 \<and>
   writeSeconds 30 bus_idle =
     (Inr (), bus_idle\<lparr>ops := write_txn 0x8E 0 @ write_txn 0x80 0x30 @ write_txn 0x8E 0x80\<rparr>) \<and>
   writeYear 2024 bus_idle = (Inr (), bus_idle\<lparr>ops := field_write 0x8C 0x24\<rparr>) \<and>
   ((100::int) < 0 \<or> (99::int) < 100) \<and>
   unlock_then_write 0x80 100 bus_idle = (Inl ValueError, bus_idle)"
  using field_write_three_transactions [of 30 2024 24 bus_idle] prepare_year_2024
  by (simp add: bus_idle_def)

subsection \<open>\<open>writeYear\<close> on short years\<close>

lemma str_nonneg_digits: "0 \<le> z \<Longrightarrow> filter is_digit (str z) = str z"
  using decimal_digits [of "nat z"] by (simp add: str_def list_all_iff)

lemma prepare_year_minus_12: "prepare_year_for_save (- 12) = Inr 2"
  by (simp add: prepare_year_for_save_def str_def decimal.simps digit_char_def int_of_str_def
      is_digit_def digit_value_def)

text \<open>
  Claim C10, amended. For every year with \<open>0 < year < 100\<close>, \<open>writeYear\<close> raises
  ValueError and leaves the pins untouched. Among the years from 0 on, \<open>writeYear\<close>
  writes exactly those of at least three decimal digits, the years from 100 on. For any
  year, a call that writes has a decimal string of at least three characters, the sign
  included: a negative year of two digits is written.
\<close>

theorem writeYear_two_digit_year:
  assumes "0 < y" "y < 100"
  shows "writeYear y s = (Inl ValueError, s) \<and>
         (\<forall>z t. 0 \<le> z \<longrightarrow>
            (fst (writeYear z t) = Inr ()) = (3 \<le> length (filter is_digit (str z)))) \<and>
         (\<forall>z t. fst (writeYear z t) = Inr () \<longrightarrow> 3 \<le> length (str z)) \<and>
         (\<forall>z t. 100 \<le> z \<longrightarrow> fst (writeYear z t) = Inr ()) \<and>
         (\<forall>z t. 0 \<le> z \<and> z < 100 \<longrightarrow> writeYear z t = (Inl ValueError, t))"
proof -
  have short: "writeYear z t = (Inl ValueError, t)" if "0 \<le> z" "z < 100" for z t
    using that
    by (simp add: writeYear_def prepare_year_short lift_io_def then_io_def raise_io_def)
  have long: "fst (writeYear z t) = Inr ()" if big: "100 \<le> z" for z t
  proof -
    obtain v where "prepare_year_for_save z = Inr v"
      using prepare_year_long [OF big] by blast
    then show ?thesis by (simp add: writeYear_apply)
  qed
  have chars: "3 \<le> length (str z)" if ok: "fst (writeYear z t) = Inr ()" for z t
  proof (cases "prepare_year_for_save z")
    case (Inl e)
    with ok show ?thesis
      by (simp add: writeYear_def lift_io_def then_io_def raise_io_def)
  next
    case (Inr v)
    then show ?thesis by (rule prepare_year_needs_three)
  qed
  have digits: "(fst (writeYear z t) = Inr ()) = (3 \<le> length (filter is_digit (str z)))"
    if z: "0 \<le> z" for z t
  proof (cases "z < 100")
    case True
    with z have "length (str z) \<le> 2" by (rule str_short)
    with z True show ?thesis by (simp add: short str_nonneg_digits)
  next
    case False
    then have "3 \<le> length (str z)"
      using decimal_long [of "nat z"] by (simp add: str_def)
    with z False show ?thesis by (simp add: long str_nonneg_digits)
  qed
  show ?thesis
  proof (intro conjI allI impI)
    show "writeYear y s = (Inl ValueError, s)"
      using assms by (simp add: short)
    show "3 \<le> length (str z)" if "fst (writeYear z t) = Inr ()" for z t
      using that by (rule chars)
    show "writeYear z t = (Inl ValueError, t)" if "0 \<le> z \<and> z < 100" for z t
      using that by (simp add: short)
  qed (simp_all add: long digits)
qed

theorem writeYear_two_digit_year_witness:
  "(0::int) < 24 \<and> (24::int) < 100 \<and> writeYear 24 bus_idle = (Inl ValueError, bus_idle) \<and>
   (100::int) \<le> 2024 \<and> fst (writeYear 2024 bus_idle) = Inr () \<and> 3 \<le> length (str 2024)"
  using writeYear_two_digit_year [of 24 bus_idle] by simp

text \<open>
  Counting digits instead of characters fails at \<open>writeYear(-12)\<close>: the year has two
  decimal digits, its string \<open>-12\<close> has three characters, the slice is \<open>2\<close>, and 0x02
  is written to the year register.
\<close>

theorem writeYear_negative_year_counterexample:
  "length (filter is_digit (str (- 12))) = 2 \<and>
   writeYear (- 12) bus_idle = (Inr (), bus_idle\<lparr>ops := field_write 0x8C 0x02\<rparr>)"
proof -
  have "length (filter is_digit (str (- 12))) = 2"
    by (simp add: str_def decimal.simps digit_char_def is_digit_def)
  moreover have "writeYear (- 12) bus_idle =
      (Inr (), bus_idle\<lparr>ops := field_write 0x8C 0x02\<rparr>)"
    using writeYear_apply [OF prepare_year_minus_12, of bus_idle] by (simp add: bus_idle_def)
  ultimately show ?thesis by simp
qed

subsection \<open>\<open>setDate\<close>\<close>

text \<open>
  Claim C1, evaluated on the code. \<open>setDate(3, 2, 2024, 25, 47, 30, 6)\<close> writes the day,
  the month, the year and the weekday, and nothing else: the hour is not written, and
  neither are the minute 47 and the second 30. The same holds for every hour, minute and
  second, since \<open>(-1 & x)\<close> is \<open>x\<close> and the guard compares \<open>x > x\<close>.
\<close>

theorem setDate_hour_25:
  "setDate 3 2 2024 25 47 30 6 s =
     (Inr (), s\<lparr>ops := ops s @ field_write 0x86 0x03 @ field_write 0x88 0x02
                @ field_write 0x8C 0x24 @ field_write 0x8A 0x06\<rparr>) \<and>
   (\<forall>hour minute second.
      setDate 3 2 2024 hour minute second 6 s = setDate 3 2 2024 25 47 30 6 s)"
proof -
  have w: "writeDayOfTheMonth 3 t = (Inr (), t\<lparr>ops := ops t @ field_write 0x86 0x03\<rparr>)"
    "writeMonth 2 t = (Inr (), t\<lparr>ops := ops t @ field_write 0x88 0x02\<rparr>)"
    "writeYear 2024 t = (Inr (), t\<lparr>ops := ops t @ field_write 0x8C 0x24\<rparr>)"
    "writeDayOfTheWeek 6 t = (Inr (), t\<lparr>ops := ops t @ field_write 0x8A 0x06\<rparr>)" for t
    using writeYear_apply [OF prepare_year_2024, of t]
    by (simp_all add: writeDayOfTheMonth_def writeMonth_def writeDayOfTheWeek_def register_defs
        unlock_then_write_apply)
  have "setDate 3 2 2024 hour minute second 6 s =
     (Inr (), s\<lparr>ops := ops s @ field_write 0x86 0x03 @ field_write 0x88 0x02
                @ field_write 0x8C 0x24 @ field_write 0x8A 0x06\<rparr>)" for hour minute second
    by (simp add: setDate_def when_io_def then_io_def done_io_def w)
  then show ?thesis by simp
qed

text \<open>
  Claim C5, evaluated on the code. \<open>setDate\<close> with day 100 raises ValueError before any
  pin is touched, and with day 32 it writes 0x32 to the day register: the guard of the day
  is \<open>(d & d) > (0 & d) < 32\<close>, which never compares the day with 32.
\<close>

theorem setDate_day_out_of_range:
  "setDate 100 2 2024 15 47 30 6 s = (Inl ValueError, s) \<and>
   setDate 32 2 2024 15 47 30 6 s =
     (Inr (), s\<lparr>ops := ops s @ field_write 0x86 0x32 @ field_write 0x88 0x02
                @ field_write 0x8C 0x24 @ field_write 0x8A 0x06\<rparr>)"
proof -
  have w: "writeDayOfTheMonth 100 t = (Inl ValueError, t)"
    "writeDayOfTheMonth 32 t = (Inr (), t\<lparr>ops := ops t @ field_write 0x86 0x32\<rparr>)"
    "writeMonth 2 t = (Inr (), t\<lparr>ops := ops t @ field_write 0x88 0x02\<rparr>)"
    "writeYear 2024 t = (Inr (), t\<lparr>ops := ops t @ field_write 0x8C 0x24\<rparr>)"
    "writeDayOfTheWeek 6 t = (Inr (), t\<lparr>ops := ops t @ field_write 0x8A 0x06\<rparr>)" for t
    using writeYear_apply [OF prepare_year_2024, of t]
    by (simp_all add: writeDayOfTheMonth_def writeMonth_def writeDayOfTheWeek_def register_defs
        unlock_then_write_apply unlock_then_write_raises)
  show ?thesis
    by (simp add: setDate_def when_io_def then_io_def done_io_def w)
qed

end
